theory Spec2Isabelle
  imports Complex_Main "HOL-Library.Word"
begin

unbundle bit_operations_syntax

section \<open>Values of the platform\<close>

text \<open>
  The errors the program can end with. The first four are the exceptions the browser
  raises in the calls the source makes: \<open>atob\<close> on a string that is not base64
  (\<open>InvalidCharacterError\<close>), a typed-array view over a buffer whose byte length is not a
  multiple of the element size and \<open>start\<close> with a negative offset (\<open>RangeError\<close>),
  \<open>createBuffer\<close> with a zero argument or an unsupported rate (\<open>NotSupportedError\<close>),
  \<open>stop\<close> on a source that was never started (\<open>InvalidStateError\<close>). The last two are
  the error kinds the specification names; no statement of the source raises them.
\<close>

datatype error =
    InvalidCharacterError
  | RangeError
  | NotSupportedError
  | InvalidStateError
  | MalformedAudioData
  | PlaybackUnavailable

text \<open>
  A JavaScript number: a finite value, one of the two infinities, or NaN. Finite values
  are real numbers here. The arithmetic the program does on samples is exact on the
  values it meets: a 16-bit integer divided by \<open>32768\<close> has at most 16 significant bits,
  and the product of a single-precision sample with \<open>32767\<close> or \<open>32768\<close> has at most
  39, so neither the store into a \<open>Float32Array\<close> nor the double-precision product
  rounds. The sign of zero is not kept: no result of the program depends on it.
\<close>

datatype number = Num real | PosInf | NegInf | NaN

fun number_le :: "number \<Rightarrow> number \<Rightarrow> bool" where
  "number_le NaN _ = False"
| "number_le _ NaN = False"
| "number_le NegInf _ = True"
| "number_le _ PosInf = True"
| "number_le (Num x) (Num y) = (x \<le> y)"
| "number_le (Num x) NegInf = False"
| "number_le PosInf (Num y) = False"
| "number_le PosInf NegInf = False"

text \<open>\<open>Math.min\<close> and \<open>Math.max\<close> of two arguments: NaN as soon as one argument is NaN.\<close>

definition Math_min :: "number \<Rightarrow> number \<Rightarrow> number" where
  "Math_min a b = (if a = NaN \<or> b = NaN then NaN else if number_le a b then a else b)"

definition Math_max :: "number \<Rightarrow> number \<Rightarrow> number" where
  "Math_max a b = (if a = NaN \<or> b = NaN then NaN else if number_le a b then b else a)"

text \<open>The comparison \<open>a < b\<close>: false as soon as one side is NaN.\<close>

definition number_less :: "number \<Rightarrow> number \<Rightarrow> bool" where
  "number_less a b = (a \<noteq> NaN \<and> b \<noteq> NaN \<and> \<not> number_le b a)"

text \<open>The product of a number with a finite positive constant (\<open>0x8000\<close>, \<open>0x7FFF\<close>).\<close>

fun times_const :: "number \<Rightarrow> real \<Rightarrow> number" where
  "times_const (Num x) c = Num (x * c)"
| "times_const PosInf c = PosInf"
| "times_const NegInf c = NegInf"
| "times_const NaN c = NaN"

definition trunc_toward_zero :: "real \<Rightarrow> int" where
  "trunc_toward_zero x = (if 0 \<le> x then \<lfloor>x\<rfloor> else \<lceil>x\<rceil>)"

text \<open>
  \<open>x | 0\<close> is the conversion ToInt32: NaN and the infinities give 0, a finite value is
  truncated toward zero and reduced modulo \<open>2 ^ 32\<close>.
\<close>

fun ToInt32 :: "number \<Rightarrow> 32 word" where
  "ToInt32 (Num x) = word_of_int (trunc_toward_zero x)"
| "ToInt32 _ = 0"

text \<open>ToUint32 of a finite number, as \<open>DataView.setUint32\<close> applies it to its argument.\<close>

definition ToUint32 :: "real \<Rightarrow> 32 word" where
  "ToUint32 x = word_of_int (trunc_toward_zero x)"

section \<open>Base64 (\<open>atob\<close>)\<close>

text \<open>
  \<open>atob\<close> is the browser's forgiving base64 decoder: ASCII whitespace is dropped, one or
  two trailing \<open>=\<close> are dropped when the length is a multiple of four, a length of
  \<open>1\<close> modulo \<open>4\<close> or a character outside the alphabet is an \<open>InvalidCharacterError\<close>, and
  the bits left over after the last whole byte are discarded. The result is a string of
  code units below 256, given here as the list of those code units. (A \<open>string\<close> here
  holds code units below 256; any other code unit is outside the alphabet as well.)
\<close>

definition is_ascii_whitespace :: "char \<Rightarrow> bool" where
  "is_ascii_whitespace c =
     (let n = (of_char c :: nat) in n = 9 \<or> n = 10 \<or> n = 12 \<or> n = 13 \<or> n = 32)"

definition base64_value :: "char \<Rightarrow> nat option" where
  "base64_value c =
     (let n = (of_char c :: nat) in
      if 65 \<le> n \<and> n \<le> 90 then Some (n - 65)
      else if 97 \<le> n \<and> n \<le> 122 then Some (n - 71)
      else if 48 \<le> n \<and> n \<le> 57 then Some (n + 4)
      else if n = 43 then Some 62
      else if n = 47 then Some 63
      else None)"

definition strip_padding :: "string \<Rightarrow> string" where
  "strip_padding s =
     (if length s mod 4 = 0 \<and> s \<noteq> [] \<and> last s = CHR ''=''
      then (let s1 = butlast s in
            if s1 \<noteq> [] \<and> last s1 = CHR ''='' then butlast s1 else s1)
      else s)"

fun base64_groups :: "nat list \<Rightarrow> nat list" where
  "base64_groups (a # b # c # d # rest) =
     (let n = ((a * 64 + b) * 64 + c) * 64 + d
      in n div 65536 # n div 256 mod 256 # n mod 256 # base64_groups rest)"
| "base64_groups [a, b, c] = (let n = (a * 64 + b) * 64 + c in [n div 1024, n div 4 mod 256])"
| "base64_groups [a, b] = [(a * 64 + b) div 16]"
| "base64_groups _ = []"

definition atob :: "string \<Rightarrow> error + nat list" where
  "atob input =
     (let data = strip_padding (filter (\<lambda>c. \<not> is_ascii_whitespace c) input) in
      if length data mod 4 = 1 then Inl InvalidCharacterError
      else (case those (map base64_value data) of
              None \<Rightarrow> Inl InvalidCharacterError
            | Some values \<Rightarrow> Inr (base64_groups values)))"

section \<open>\<open>utils/audioUtils.ts\<close>: the PCM codec\<close>

text \<open>\<open>decodeBase64\<close>: each code unit of the binary string is stored into a \<open>Uint8Array\<close>.\<close>

definition decodeBase64 :: "string \<Rightarrow> error + 8 word list" where
  "decodeBase64 base64 =
     (case atob base64 of
        Inl e \<Rightarrow> Inl e
      | Inr binaryString \<Rightarrow> Inr (map of_nat binaryString))"

text \<open>
  \<open>new Int16Array(bytes.buffer)\<close>: a view of the bytes as 16-bit integers, low byte
  first. The constructor throws a \<open>RangeError\<close> when the byte length is odd.
\<close>

fun int16_elements :: "8 word list \<Rightarrow> 16 word list" where
  "int16_elements (lo # hi # rest) = (push_bit 8 (ucast hi) OR ucast lo) # int16_elements rest"
| "int16_elements _ = []"

definition new_Int16Array :: "8 word list \<Rightarrow> error + 16 word list" where
  "new_Int16Array buffer =
     (if odd (length buffer) then Inl RangeError else Inr (int16_elements buffer))"

text \<open>
  The audio context, as far as \<open>createBuffer\<close> depends on it: the range of sample rates
  the implementation supports (the standard asks for at least 8000 to 96000 Hz).
\<close>

record AudioContext =
  minSampleRate :: real
  maxSampleRate :: real

record AudioBuffer =
  sampleRate :: real
  channels :: "number list list"

definition numberOfChannels :: "AudioBuffer \<Rightarrow> nat" where
  "numberOfChannels b = length (channels b)"

definition buffer_length :: "AudioBuffer \<Rightarrow> nat" where
  "buffer_length b = (case channels b of [] \<Rightarrow> 0 | c # _ \<Rightarrow> length c)"

definition duration :: "AudioBuffer \<Rightarrow> real" where
  "duration b = real (buffer_length b) / sampleRate b"

text \<open>
  \<open>createBuffer(numberOfChannels, length, sampleRate)\<close>: a silent buffer. The Web Audio
  standard has it throw a \<open>NotSupportedError\<close> when an argument is zero or outside its
  range; a frame count of at least 1 is required.
\<close>

definition createBuffer :: "AudioContext \<Rightarrow> nat \<Rightarrow> nat \<Rightarrow> real \<Rightarrow> error + AudioBuffer" where
  "createBuffer ctx numOfChannels len rate =
     (if numOfChannels = 0 \<or> len = 0 \<or> rate \<le> 0
         \<or> rate < minSampleRate ctx \<or> maxSampleRate ctx < rate
      then Inl NotSupportedError
      else Inr \<lparr>sampleRate = rate,
                channels = replicate numOfChannels (replicate len (Num 0))\<rparr>)"

text \<open>
  \<open>decodeRawPCM\<close>. The loop over \<open>i < int16Data.length\<close> stores
  \<open>int16Data[i] / 32768.0\<close> into cell \<open>i\<close> of channel 0, which has that many cells.
  The rate is always passed here; the source's default for it is 24000.
\<close>

definition decodeRawPCM :: "string \<Rightarrow> AudioContext \<Rightarrow> real \<Rightarrow> error + AudioBuffer" where
  "decodeRawPCM base64Data audioContext rate =
     (case decodeBase64 base64Data of
        Inl e \<Rightarrow> Inl e
      | Inr bytes \<Rightarrow>
         (case new_Int16Array bytes of
            Inl e \<Rightarrow> Inl e
          | Inr int16Data \<Rightarrow>
             (case createBuffer audioContext 1 (length int16Data) rate of
                Inl e \<Rightarrow> Inl e
              | Inr buffer \<Rightarrow>
                 Inr (buffer\<lparr>channels :=
                        (channels buffer)[0 := map (\<lambda>v. Num (real_of_int (sint v) / 32768)) int16Data]\<rparr>))))"

text \<open>The writes of a \<open>DataView\<close>, little-endian, as the bytes they store.\<close>

definition writeString :: "string \<Rightarrow> 8 word list" where
  "writeString s = map (\<lambda>c. of_nat (of_char c)) s"

definition setUint32 :: "32 word \<Rightarrow> 8 word list" where
  "setUint32 w = [ucast w, ucast (drop_bit 8 w), ucast (drop_bit 16 w), ucast (drop_bit 24 w)]"

definition setUint16 :: "16 word \<Rightarrow> 8 word list" where
  "setUint16 w = [ucast w, ucast (drop_bit 8 w)]"

text \<open>\<open>setInt16\<close> of a 32-bit integer keeps its low 16 bits (the conversion ToInt16).\<close>

definition ToInt16 :: "32 word \<Rightarrow> 16 word" where
  "ToInt16 w = word_of_int (sint w)"

definition setInt16 :: "32 word \<Rightarrow> 8 word list" where
  "setInt16 w = setUint16 (ToInt16 w)"

text \<open>
  \<open>channels[i][pos]\<close>: past the end of the array the read gives \<open>undefined\<close>, which
  \<open>Math.min\<close> converts to NaN.
\<close>

definition getSample :: "number list \<Rightarrow> nat \<Rightarrow> number" where
  "getSample channel pos = (if pos < length channel then channel ! pos else NaN)"

text \<open>The two assignments to \<open>sample\<close> in the inner loop: clamp, then scale and truncate.\<close>

definition scaleSample :: "number \<Rightarrow> 32 word" where
  "scaleSample x =
     (let sample = Math_max (Num (- 1)) (Math_min (Num 1) x)
      in ToInt32 (if number_less sample (Num 0) then times_const sample 32768
                  else times_const sample 32767))"

text \<open>
  \<open>bufferToWave\<close>. The header is written at offsets 0 to 43 in this order; then, for each
  \<open>pos < len\<close> and each channel, one 16-bit sample. The bytes written fill the buffer of
  \<open>len * numOfChan * 2 + 44\<close> bytes exactly.
\<close>

definition bufferToWave :: "AudioBuffer \<Rightarrow> nat \<Rightarrow> 8 word list" where
  "bufferToWave abuffer len =
     (let numOfChan = numberOfChannels abuffer;
          length0 = len * numOfChan * 2 + 44;
          pos = 0
      in writeString ''RIFF'' @ setUint32 (of_nat (length0 - 8))
         @ writeString ''WAVE'' @ writeString ''fmt ''
         @ setUint32 16 @ setUint16 1 @ setUint16 (of_nat numOfChan)
         @ setUint32 (ToUint32 (sampleRate abuffer))
         @ setUint32 (ToUint32 (sampleRate abuffer * 2 * real numOfChan))
         @ setUint16 (of_nat (numOfChan * 2)) @ setUint16 16
         @ writeString ''data'' @ setUint32 (of_nat (length0 - pos - 44))
         @ concat (map (\<lambda>pos. concat (map (\<lambda>channel. setInt16 (scaleSample (getSample channel pos)))
                                          (channels abuffer)))
                       [0..<len]))"

text \<open>Reading a little-endian field of the encoded file back.\<close>

definition getUint16 :: "8 word list \<Rightarrow> nat \<Rightarrow> 16 word" where
  "getUint16 bytes off = push_bit 8 (ucast (bytes ! (off + 1))) OR ucast (bytes ! off)"

definition getUint32 :: "8 word list \<Rightarrow> nat \<Rightarrow> 32 word" where
  "getUint32 bytes off =
     push_bit 24 (ucast (bytes ! (off + 3))) OR push_bit 16 (ucast (bytes ! (off + 2)))
       OR push_bit 8 (ucast (bytes ! (off + 1))) OR ucast (bytes ! off)"

text \<open>
  The value the inner loop of \<open>bufferToWave\<close> stores for a finite sample, in closed form
  (proved equal to what \<open>scaleSample\<close> computes, below).
\<close>

definition scaled :: "real \<Rightarrow> int" where
  "scaled x = (if x \<le> - 1 then - 32768 else if 1 \<le> x then 32767
               else if x < 0 then \<lceil>x * 32768\<rceil> else \<lfloor>x * 32767\<rfloor>)"

section \<open>The audio player component\<close>

text \<open>
  A source node is created, then started at an offset into the buffer, then stopped
  (by \<open>stop\<close>, or by reaching the end of the buffer). \<open>Started\<close> means that \<open>start\<close> was
  called and the node has not stopped: it is the one that sounds.
\<close>

datatype phase = Created | Started real | Stopped

fun is_started :: "phase \<Rightarrow> bool" where
  "is_started (Started offset) = True"
| "is_started _ = False"

text \<open>
  A handler either runs to its end or stops at an uncaught exception. The refs it has
  assigned before the exception keep their new values, so both outcomes carry a state.
\<close>

datatype 'a outcome = Done 'a | Threw error 'a

fun state_of :: "'a outcome \<Rightarrow> 'a" where
  "state_of (Done s) = s"
| "state_of (Threw e s) = s"

text \<open>
  The component: its prop \<open>audioBuffer\<close>, its React state (\<open>isPlaying\<close>, \<open>currentTime\<close>,
  \<open>isMuted\<close>) and its refs. \<open>audioContextRef\<close> and \<open>analyzerRef\<close> say whether the object
  exists, \<open>gainNodeRef\<close> holds the gain of the current gain node, \<open>sourceRef\<close> the index
  of the current source among the nodes created so far (\<open>sources\<close>). \<open>pending\<close> is the
  browser's list of animation-frame callbacks: each \<open>draw\<close> closure with its handle and
  with the value of \<open>isPlaying\<close> it captured when its render's \<open>drawVisualizer\<close> made it.
  \<open>framesDrawn\<close> counts the frames \<open>draw\<close> has produced.
\<close>

record player =
  audioBuffer :: "AudioBuffer option"
  isPlaying :: bool
  currentTime :: real
  isMuted :: bool
  audioContextRef :: bool
  sourceRef :: "nat option"
  sources :: "phase list"
  gainNodeRef :: "real option"
  analyzerRef :: bool
  canvasRef :: bool
  animationRef :: "nat option"
  startTimeRef :: real
  pauseTimeRef :: real
  pending :: "(nat \<times> bool) list"
  nextHandle :: nat
  framesDrawn :: nat

text \<open>The component after mounting: nothing created, the canvas in place.\<close>

definition init_player :: "AudioBuffer option \<Rightarrow> player" where
  "init_player b =
     \<lparr>audioBuffer = b, isPlaying = False, currentTime = 0, isMuted = False,
      audioContextRef = False, sourceRef = None, sources = [], gainNodeRef = None,
      analyzerRef = False, canvasRef = True, animationRef = None,
      startTimeRef = 0, pauseTimeRef = 0, pending = [], nextHandle = 1, framesDrawn = 0\<rparr>"

text \<open>
  In the handlers below, \<open>now\<close> is the value of \<open>audioContextRef.current.currentTime\<close>
  while the handler runs, and \<open>closure_isPlaying\<close> is the \<open>isPlaying\<close> of the render
  whose closures are running: \<open>setIsPlaying\<close> changes the state of the next render,
  not the constant the running closure reads.
\<close>

definition initAudio :: "player \<Rightarrow> player" where
  "initAudio s =
     (case audioBuffer s of
        None \<Rightarrow> s
      | Some b \<Rightarrow> s\<lparr>audioContextRef := True, analyzerRef := True, gainNodeRef := Some 1\<rparr>)"

text \<open>
  \<open>draw\<close>: the check of \<open>isPlaying\<close>, then the progress update, then the request for the
  next frame, whose handle goes to \<open>animationRef\<close>.
\<close>

definition draw :: "bool \<Rightarrow> real \<Rightarrow> player \<Rightarrow> player" where
  "draw closure_isPlaying now s =
     (if \<not> closure_isPlaying then s
      else (let s1 = (if audioContextRef s then s\<lparr>currentTime := now - startTimeRef s\<rparr> else s)
            in s1\<lparr>animationRef := Some (nextHandle s1),
                   pending := pending s1 @ [(nextHandle s1, closure_isPlaying)],
                   nextHandle := nextHandle s1 + 1,
                   framesDrawn := framesDrawn s1 + 1\<rparr>))"

text \<open>\<open>drawVisualizer\<close>; the canvas, when there is one, gives a 2d context.\<close>

definition drawVisualizer :: "bool \<Rightarrow> real \<Rightarrow> player \<Rightarrow> player" where
  "drawVisualizer closure_isPlaying now s =
     (if \<not> analyzerRef s \<or> \<not> canvasRef s then s else draw closure_isPlaying now s)"

text \<open>\<open>source.stop()\<close> on node \<open>i\<close>: an \<open>InvalidStateError\<close> if it was never started.\<close>

definition source_stop :: "nat \<Rightarrow> player \<Rightarrow> player outcome" where
  "source_stop i s =
     (if i < length (sources s)
      then (case sources s ! i of
              Created \<Rightarrow> Threw InvalidStateError s
            | Started offset \<Rightarrow> Done (s\<lparr>sources := (sources s)[i := Stopped]\<rparr>)
            | Stopped \<Rightarrow> Done s)
      else Done s)"

text \<open>\<open>if (animationRef.current) cancelAnimationFrame(animationRef.current)\<close>.\<close>

definition cancelAnimation :: "player \<Rightarrow> player" where
  "cancelAnimation s =
     (case animationRef s of
        None \<Rightarrow> s
      | Some h \<Rightarrow> if h = 0 then s
                  else s\<lparr>pending := filter (\<lambda>cb. fst cb \<noteq> h) (pending s)\<rparr>)"

text \<open>
  \<open>playAudio\<close>: a new source is created, stored in \<open>sourceRef\<close>, wired and started at
  \<open>pauseTimeRef\<close>; \<open>start\<close> throws a \<open>RangeError\<close> on a negative offset. Nothing here
  stops the source that \<open>sourceRef\<close> held before.
\<close>

definition playAudio :: "bool \<Rightarrow> real \<Rightarrow> player \<Rightarrow> player outcome" where
  "playAudio closure_isPlaying now s =
     (case audioBuffer s of
        None \<Rightarrow> Done s
      | Some b \<Rightarrow>
         (let s1 = initAudio s;
              i = length (sources s1);
              s2 = s1\<lparr>sources := sources s1 @ [Created], sourceRef := Some i\<rparr>;
              offset = pauseTimeRef s2
          in if offset < 0 then Threw RangeError s2
             else Done (drawVisualizer closure_isPlaying now
                          (s2\<lparr>sources := (sources s2)[i := Started offset],
                              startTimeRef := now - offset,
                              isPlaying := True\<rparr>))))"

text \<open>The \<open>onended\<close> handler that \<open>playAudio\<close> gives every source.\<close>

definition onended :: "real \<Rightarrow> player \<Rightarrow> player" where
  "onended now s =
     (case audioBuffer s of
        None \<Rightarrow> s
      | Some b \<Rightarrow>
         if now - startTimeRef s \<ge> duration b - 0.1
         then s\<lparr>isPlaying := False, pauseTimeRef := 0, currentTime := 0\<rparr>
         else s)"

definition pauseAudio :: "bool \<Rightarrow> real \<Rightarrow> player \<Rightarrow> player outcome" where
  "pauseAudio closure_isPlaying now s =
     (case sourceRef s of
        None \<Rightarrow> Done s
      | Some i \<Rightarrow>
         if closure_isPlaying
         then (case source_stop i s of
                 Threw e s1 \<Rightarrow> Threw e s1
               | Done s1 \<Rightarrow>
                  Done (cancelAnimation
                          (s1\<lparr>pauseTimeRef := now - startTimeRef s1, isPlaying := False\<rparr>)))
         else Done s)"

definition stopAudio :: "player \<Rightarrow> player outcome" where
  "stopAudio s =
     (case (case sourceRef s of None \<Rightarrow> Done s | Some i \<Rightarrow> source_stop i s) of
        Threw e s1 \<Rightarrow> Threw e s1
      | Done s1 \<Rightarrow>
         Done (cancelAnimation (s1\<lparr>isPlaying := False, pauseTimeRef := 0, currentTime := 0\<rparr>)))"

definition togglePlay :: "real \<Rightarrow> player \<Rightarrow> player outcome" where
  "togglePlay now s =
     (if isPlaying s then pauseAudio (isPlaying s) now s else playAudio (isPlaying s) now s)"

definition toggleMute :: "player \<Rightarrow> player" where
  "toggleMute s =
     (case gainNodeRef s of
        None \<Rightarrow> s
      | Some g \<Rightarrow> s\<lparr>gainNodeRef := Some (if isMuted s then 1 else 0), isMuted := \<not> isMuted s\<rparr>)"

text \<open>
  \<open>handleSeek\<close>, with \<open>time\<close> the number parsed from the slider's value. The value is
  stored as it is; when playing, the current source is stopped and \<open>playAudio\<close> called.
\<close>

definition handleSeek :: "real \<Rightarrow> real \<Rightarrow> player \<Rightarrow> player outcome" where
  "handleSeek time now s =
     (let s1 = s\<lparr>currentTime := time, pauseTimeRef := time\<rparr>
      in if isPlaying s
         then (case (case sourceRef s1 of None \<Rightarrow> Done s1 | Some i \<Rightarrow> source_stop i s1) of
                 Threw e s2 \<Rightarrow> Threw e s2
               | Done s2 \<Rightarrow> playAudio (isPlaying s) now s2)
         else Done s1)"

text \<open>The restart button: \<open>stopAudio(); playAudio();\<close> in one handler.\<close>

definition restart :: "real \<Rightarrow> player \<Rightarrow> player outcome" where
  "restart now s =
     (case stopAudio s of
        Threw e s1 \<Rightarrow> Threw e s1
      | Done s1 \<Rightarrow> playAudio (isPlaying s) now s1)"

text \<open>
  An animation frame: the browser takes the callbacks requested so far and runs each;
  a callback requested during the frame waits for the next one.
\<close>

definition animationFrame :: "real \<Rightarrow> player \<Rightarrow> player" where
  "animationFrame now s =
     fold (\<lambda>cb s1. draw (snd cb) now s1) (pending s) (s\<lparr>pending := []\<rparr>)"

text \<open>
  The current source, if it is started, reaches the end of the buffer: it stops by
  itself, and its \<open>onended\<close> handler runs.
\<close>

definition sourceFinished :: "real \<Rightarrow> player \<Rightarrow> player" where
  "sourceFinished now s =
     (case sourceRef s of
        None \<Rightarrow> s
      | Some i \<Rightarrow>
         if i < length (sources s) \<and> is_started (sources s ! i)
         then onended now (s\<lparr>sources := (sources s)[i := Stopped]\<rparr>)
         else s)"

text \<open>
  What the user and the browser do to the mounted component, one event at a time, each
  with the context time at which it happens (\<open>Seek time now\<close>: the slider's value first).
  Each handler runs in the closures of the latest render. \<open>StoppedSourceEnded\<close> is the
  \<open>ended\<close> event the browser delivers for a source that \<open>stop\<close> has ended, some time after
  the handler that stopped it has returned: the source is stopped already, and the
  event only runs \<open>onended\<close>.
\<close>

datatype event =
    TogglePlay real
  | Restart real
  | Seek real real
  | ToggleMute
  | AnimationFrame real
  | SourceFinished real
  | StoppedSourceEnded real

fun step :: "player \<Rightarrow> event \<Rightarrow> player" where
  "step s (TogglePlay now) = state_of (togglePlay now s)"
| "step s (Restart now) = state_of (restart now s)"
| "step s (Seek time now) = state_of (handleSeek time now s)"
| "step s ToggleMute = toggleMute s"
| "step s (AnimationFrame now) = animationFrame now s"
| "step s (SourceFinished now) = sourceFinished now s"
| "step s (StoppedSourceEnded now) = onended now s"

fun ended_of_stopped :: "event \<Rightarrow> bool" where
  "ended_of_stopped (StoppedSourceEnded now) = True"
| "ended_of_stopped _ = False"

definition run :: "event list \<Rightarrow> player \<Rightarrow> player" where
  "run es s = foldl step s es"

text \<open>The number of sources that sound.\<close>

definition live_sources :: "player \<Rightarrow> nat" where
  "live_sources s = length (filter is_started (sources s))"


text \<open>
  What holds of the component between events: a source that is started is the one in
  \<open>sourceRef\<close>, and the component is then in the playing state. \<open>silent\<close>: no source
  is started.
\<close>

definition player_inv :: "player \<Rightarrow> bool" where
  "player_inv s =
     (\<forall>j < length (sources s). is_started (sources s ! j) \<longrightarrow> sourceRef s = Some j \<and> isPlaying s)"

definition silent :: "player \<Rightarrow> bool" where
  "silent s = (\<forall>j < length (sources s). \<not> is_started (sources s ! j))"

section \<open>Bytes and 16-bit integers\<close>

lemma int16_roundtrip:
  "push_bit 8 (ucast (ucast (drop_bit 8 w) :: 8 word)) OR ucast (ucast w :: 8 word) = (w :: 16 word)"
  by (rule bit_word_eqI) (auto simp: bit_simps)

lemma uint32_roundtrip:
  "push_bit 24 (ucast (ucast (drop_bit 24 w) :: 8 word))
     OR push_bit 16 (ucast (ucast (drop_bit 16 w) :: 8 word))
     OR push_bit 8 (ucast (ucast (drop_bit 8 w) :: 8 word))
     OR ucast (ucast w :: 8 word) = (w :: 32 word)"
proof (rule bit_word_eqI)
  fix n :: nat
  assume "n < LENGTH(32)"
  then have n: "n < 32" by simp
  consider "n < 8" | "8 \<le> n" "n < 16" | "16 \<le> n" "n < 24" | "24 \<le> n"
    by linarith
  then show "bit (push_bit 24 (ucast (ucast (drop_bit 24 w) :: 8 word))
                  OR push_bit 16 (ucast (ucast (drop_bit 16 w) :: 8 word))
                  OR push_bit 8 (ucast (ucast (drop_bit 8 w) :: 8 word))
                  OR ucast (ucast w :: 8 word) :: 32 word) n = bit w n"
    using n by cases (auto simp: bit_simps)
qed

lemma int16_elements_setUint16: "int16_elements (concat (map setUint16 ws)) = ws"
  by (induction ws) (simp_all add: setUint16_def int16_roundtrip)

lemma length_concat_setUint16: "length (concat (map setUint16 ws)) = 2 * length ws"
  by (induction ws) (simp_all add: setUint16_def)

lemma int16_elements_nonempty: "even (length bs) \<Longrightarrow> bs \<noteq> [] \<Longrightarrow> int16_elements bs \<noteq> []"
  by (cases bs rule: int16_elements.cases) auto

lemma sint16_of_int: "- 32768 \<le> k \<Longrightarrow> k \<le> 32767 \<Longrightarrow> sint (word_of_int k :: 16 word) = k"
  by (simp add: sint_sbintrunc' signed_take_bit_int_eq_self)

lemma sint32_of_int: "- 32768 \<le> k \<Longrightarrow> k \<le> 32767 \<Longrightarrow> sint (word_of_int k :: 32 word) = k"
  by (simp add: sint_sbintrunc' signed_take_bit_int_eq_self)

section \<open>The stored sample\<close>

lemma scaled_range: "- 32768 \<le> scaled x \<and> scaled x \<le> 32767"
proof -
  have neg: "- 32768 \<le> \<lceil>x * 32768\<rceil>" if "- 1 < x" "x < 0"
  proof -
    from that have "- 32768 < x * 32768" by simp
    then show ?thesis by (simp add: le_ceiling_iff)
  qed
  have pos: "0 \<le> \<lfloor>x * 32767\<rfloor> \<and> \<lfloor>x * 32767\<rfloor> \<le> 32767" if "0 \<le> x" "x < 1"
  proof -
    from that have "0 \<le> x * 32767" "x * 32767 < 32767" by simp_all
    then show ?thesis by (simp add: le_floor_iff floor_le_iff)
  qed
  have up: "\<lceil>x * 32768\<rceil> \<le> 32767" if "x < 0"
  proof -
    from that have "x * 32768 \<le> 0" by simp
    then have "\<lceil>x * 32768\<rceil> \<le> 0" by (simp add: ceiling_le_iff)
    then show ?thesis by simp
  qed
  show ?thesis
    unfolding scaled_def using neg pos up by (auto simp: not_le not_less)
qed

lemma scaleSample_Num: "scaleSample (Num x) = word_of_int (scaled x)"
  by (auto simp: scaleSample_def Math_min_def Math_max_def number_less_def Let_def scaled_def
      trunc_toward_zero_def not_le not_less mult_nonneg_nonpos2 zero_le_mult_iff)

lemma stored_Num: "sint (ToInt16 (scaleSample (Num x))) = scaled x"
  using scaled_range [of x] by (simp add: ToInt16_def scaleSample_Num sint32_of_int sint16_of_int)

lemma stored_not_finite:
  "ToInt16 (scaleSample NaN) = 0"
  "sint (ToInt16 (scaleSample PosInf)) = 32767"
  "sint (ToInt16 (scaleSample NegInf)) = - 32768"
  by (simp_all add: scaleSample_def Math_min_def Math_max_def number_less_def ToInt16_def
      trunc_toward_zero_def)

lemma scaled_quantum:
  assumes r: "- 32768 \<le> k" "k < 32768"
  shows "scaled (real_of_int k / 32768) = (if 0 < k then k - 1 else k)"
proof (cases "0 < k")
  case True
  have "\<lfloor>real_of_int k / 32768 * 32767\<rfloor> = k - 1"
  proof (rule floor_unique)
    show "of_int (k - 1) \<le> real_of_int k / 32768 * 32767" using r True by simp
    show "real_of_int k / 32768 * 32767 < of_int (k - 1) + 1" using r True by simp
  qed
  then show ?thesis using r True by (simp add: scaled_def)
next
  case False
  then show ?thesis using r by (auto simp: scaled_def not_less)
qed

section \<open>Decoding\<close>

lemma decodeRawPCM_ok:
  assumes "decodeBase64 s = Inr bytes" "even (length bytes)" "bytes \<noteq> []"
    and "0 < rate" "minSampleRate ctx \<le> rate" "rate \<le> maxSampleRate ctx"
  shows "decodeRawPCM s ctx rate =
         Inr \<lparr>sampleRate = rate,
               channels = [map (\<lambda>v. Num (real_of_int (sint v) / 32768)) (int16_elements bytes)]\<rparr>"
  using assms int16_elements_nonempty [of bytes]
  by (simp add: decodeRawPCM_def new_Int16Array_def createBuffer_def)

lemma decodeRawPCM_InrD:
  assumes "decodeRawPCM s ctx rate = Inr b"
  shows "\<exists>bytes. decodeBase64 s = Inr bytes \<and> even (length bytes) \<and> bytes \<noteq> []
           \<and> 0 < rate \<and> minSampleRate ctx \<le> rate \<and> rate \<le> maxSampleRate ctx"
  using assms
  by (auto simp: decodeRawPCM_def new_Int16Array_def createBuffer_def
      split: sum.splits if_splits)

lemmas atob_unfold = decodeBase64_def atob_def strip_padding_def is_ascii_whitespace_def
  base64_value_def

lemma decodeBase64_vector: "decodeBase64 ''AID/fw=='' = Inr [0x00, 0x80, 0xFF, 0x7F]"
  by (simp add: atob_unfold)

text \<open>
  C4. For every signed 16-bit value \<open>v\<close> of the payload, \<open>decodeRawPCM\<close> produces the
  sample \<open>v / 32768\<close>: whenever the payload decodes to a non-empty, even number of bytes
  and the context supports the rate, the result is the mono buffer whose samples are
  the 16-bit little-endian integers of the payload, each divided by 32768; the view
  reads the two bytes of a value back as that value. The payload with the bytes
  \<open>00 80 FF 7F\<close>, the integers \<open>-32768\<close> and \<open>32767\<close>, decodes to the samples \<open>-1\<close> and
  \<open>0.999969482421875\<close>.
\<close>

theorem decodeRawPCM_divides_by_32768:
  assumes "0 < rate" "minSampleRate ctx \<le> rate" "rate \<le> maxSampleRate ctx"
    and "decodeBase64 base64Data = Inr bytes" "even (length bytes)" "bytes \<noteq> []"
  shows "decodeRawPCM base64Data ctx rate =
           Inr \<lparr>sampleRate = rate,
                 channels = [map (\<lambda>v. Num (real_of_int (sint v) / 32768)) (int16_elements bytes)]\<rparr>
         \<and> int16_elements (concat (map setUint16 vs)) = vs
         \<and> decodeBase64 ''AID/fw=='' = Inr [0x00, 0x80, 0xFF, 0x7F]
         \<and> map sint (int16_elements [0x00, 0x80, 0xFF, 0x7F]) = [- 32768, 32767]
         \<and> decodeRawPCM ''AID/fw=='' ctx rate =
             Inr \<lparr>sampleRate = rate, channels = [[Num (- 1), Num 0.999969482421875]]\<rparr>"
proof -
  have "decodeRawPCM ''AID/fw=='' ctx rate =
          Inr \<lparr>sampleRate = rate,
                channels = [map (\<lambda>v. Num (real_of_int (sint v) / 32768))
                                (int16_elements [0x00, 0x80, 0xFF, 0x7F])]\<rparr>"
    using assms(1-3) by (intro decodeRawPCM_ok decodeBase64_vector) simp_all
  then have "decodeRawPCM ''AID/fw=='' ctx rate =
          Inr \<lparr>sampleRate = rate, channels = [[Num (- 1), Num 0.999969482421875]]\<rparr>"
    by simp
  then show ?thesis
    using decodeRawPCM_ok [OF assms(4-6) assms(1-3)]
    by (simp add: int16_elements_setUint16 decodeBase64_vector)
qed

theorem decodeRawPCM_divides_by_32768_witness:
  "decodeRawPCM ''AAABAP//'' \<lparr>minSampleRate = 8000, maxSampleRate = 96000\<rparr> 24000 =
     Inr \<lparr>sampleRate = 24000, channels = [[Num 0, Num (1 / 32768), Num (- 1 / 32768)]]\<rparr>"
proof -
  have b: "decodeBase64 ''AAABAP//'' = Inr [0x00, 0x00, 0x01, 0x00, 0xFF, 0xFF]"
    by (simp add: atob_unfold)
  show ?thesis
    using decodeRawPCM_divides_by_32768
      [of 24000 "\<lparr>minSampleRate = 8000, maxSampleRate = 96000\<rparr>" "''AAABAP//''"
          "[0x00, 0x00, 0x01, 0x00, 0xFF, 0xFF]", OF _ _ _ b]
    by simp
qed

text \<open>
  C2, as the code has it. A payload that decodes to an odd number of bytes makes
  \<open>decodeRawPCM\<close> fail, and the failure is the \<open>RangeError\<close> of the \<open>Int16Array\<close>
  constructor; no buffer is returned.
\<close>

theorem decodeRawPCM_odd_length:
  assumes "decodeBase64 base64Data = Inr bytes" and "odd (length bytes)"
  shows "decodeRawPCM base64Data ctx rate = Inl RangeError"
  using assms by (simp add: decodeRawPCM_def new_Int16Array_def)

theorem decodeRawPCM_odd_length_witness:
  "decodeBase64 ''AA=='' = Inr [0x00] \<and> odd (length [0x00 :: 8 word])
   \<and> decodeRawPCM ''AA=='' \<lparr>minSampleRate = 8000, maxSampleRate = 96000\<rparr> 24000 = Inl RangeError"
proof -
  have b: "decodeBase64 ''AA=='' = Inr [0x00]"
    by (simp add: atob_unfold)
  show ?thesis
    using b decodeRawPCM_odd_length [OF b, of "\<lparr>minSampleRate = 8000, maxSampleRate = 96000\<rparr>" 24000]
    by simp
qed

text \<open>
  C2 as stated fails: the one-byte payload \<open>AA==\<close> does not fail with
  \<open>MalformedAudioData\<close>.
\<close>

theorem decodeRawPCM_odd_length_counterexample:
  "decodeBase64 ''AA=='' = Inr [0x00] \<and> odd (length [0x00 :: 8 word])
   \<and> decodeRawPCM ''AA=='' \<lparr>minSampleRate = 8000, maxSampleRate = 96000\<rparr> 24000
        \<noteq> Inl MalformedAudioData"
  by (simp add: atob_unfold decodeRawPCM_def new_Int16Array_def)

text \<open>
  C3, as the code has it. A payload that decodes to no bytes makes \<open>decodeRawPCM\<close> fail:
  \<open>createBuffer\<close> is called with a frame count of 0 and throws \<open>NotSupportedError\<close>.
\<close>

theorem decodeRawPCM_empty:
  assumes "decodeBase64 base64Data = Inr []"
  shows "decodeRawPCM base64Data ctx rate = Inl NotSupportedError"
  using assms by (simp add: decodeRawPCM_def new_Int16Array_def createBuffer_def)

theorem decodeRawPCM_empty_witness:
  "decodeBase64 '''' = Inr []
   \<and> decodeRawPCM '''' \<lparr>minSampleRate = 8000, maxSampleRate = 96000\<rparr> 24000 = Inl NotSupportedError"
proof -
  have b: "decodeBase64 '''' = Inr []"
    by (simp add: atob_unfold)
  show ?thesis
    using b decodeRawPCM_empty [OF b, of "\<lparr>minSampleRate = 8000, maxSampleRate = 96000\<rparr>" 24000]
    by simp
qed

text \<open>C3 as stated fails: the empty payload gives no buffer at all.\<close>

theorem decodeRawPCM_empty_counterexample:
  "\<not> (\<exists>b. decodeRawPCM '''' \<lparr>minSampleRate = 8000, maxSampleRate = 96000\<rparr> 24000 = Inr b
          \<and> buffer_length b = 0 \<and> duration b = 0)"
  by (simp add: atob_unfold decodeRawPCM_def new_Int16Array_def createBuffer_def)

section \<open>Encoding\<close>

lemma length_setUint32 [simp]: "length (setUint32 w) = 4"
  by (simp add: setUint32_def)

lemma length_setUint16 [simp]: "length (setUint16 w) = 2"
  by (simp add: setUint16_def)

lemma length_setInt16 [simp]: "length (setInt16 w) = 2"
  by (simp add: setInt16_def)

lemma length_frame:
  "length (concat (map (\<lambda>channel. setInt16 (f channel)) cs)) = length cs * 2"
  by (induction cs) simp_all

lemma length_frames:
  "length (concat (map (\<lambda>pos. concat (map (\<lambda>channel. setInt16 (f channel pos)) cs)) ps))
     = length ps * length cs * 2"
  by (induction ps) (simp_all add: length_frame)

lemma length_bufferToWave: "length (bufferToWave b len) = len * numberOfChannels b * 2 + 44"
  by (simp add: bufferToWave_def Let_def writeString_def numberOfChannels_def length_frames)

lemmas header_unfold = bufferToWave_def Let_def getUint32_def getUint16_def setUint32_def
  setUint16_def writeString_def uint32_roundtrip int16_roundtrip

lemma riff_size_field:
  "getUint32 (bufferToWave b len) 4 = of_nat (len * numberOfChannels b * 2 + 44 - 8)"
  by (simp add: header_unfold)

lemma data_size_field:
  "getUint32 (bufferToWave b len) 40 = of_nat (len * numberOfChannels b * 2 + 44 - 0 - 44)"
  by (simp add: header_unfold)

lemma byte_rate_field:
  "getUint32 (bufferToWave b len) 28 = ToUint32 (sampleRate b * 2 * real (numberOfChannels b))"
  by (simp add: header_unfold)

lemma block_align_field: "getUint16 (bufferToWave b len) 32 = of_nat (numberOfChannels b * 2)"
  by (simp add: header_unfold)

lemma ToUint32_nat: "ToUint32 (real n) = of_nat n"
  by (simp add: ToUint32_def trunc_toward_zero_def)

lemma data_section:
  assumes "channels b = [c]"
  shows "drop 44 (bufferToWave b len)
     = concat (map (\<lambda>pos. setUint16 (ToInt16 (scaleSample (getSample c pos)))) [0..<len])"
  using assms
  by (simp add: bufferToWave_def numberOfChannels_def writeString_def setUint32_def
      setUint16_def setInt16_def)

lemma data_section_full:
  assumes "channels b = [c]"
  shows "drop 44 (bufferToWave b (length c))
     = concat (map setUint16 (map (\<lambda>x. ToInt16 (scaleSample x)) c))"
proof -
  have "map (\<lambda>pos. setUint16 (ToInt16 (scaleSample (getSample c pos)))) [0..<length c]
        = map (\<lambda>pos. setUint16 (ToInt16 (scaleSample (c ! pos)))) [0..<length c]"
    by (simp add: getSample_def)
  also have "\<dots> = map (\<lambda>x. setUint16 (ToInt16 (scaleSample x))) (map ((!) c) [0..<length c])"
    by (simp add: comp_def)
  also have "\<dots> = map (\<lambda>x. setUint16 (ToInt16 (scaleSample x))) c"
    by (simp only: map_nth)
  finally show ?thesis
    by (simp add: data_section [OF assms] comp_def)
qed

lemma stored_samples:
  assumes "channels b = [c]"
  shows "int16_elements (drop 44 (bufferToWave b len))
     = map (\<lambda>pos. ToInt16 (scaleSample (getSample c pos))) [0..<len]"
proof -
  have "drop 44 (bufferToWave b len)
      = concat (map setUint16 (map (\<lambda>pos. ToInt16 (scaleSample (getSample c pos))) [0..<len]))"
    by (simp add: data_section [OF assms] comp_def)
  then show ?thesis
    by (simp only: int16_elements_setUint16)
qed

text \<open>
  C10. \<open>bufferToWave\<close> stores a signed 16-bit integer for every sample value, finite or
  not: NaN is stored as 0, a value of 1 or more (or plus infinity) as 32767, a value of
  -1 or less (or minus infinity) as -32768, and a value strictly between as its product
  with 32768 (when negative) or 32767 (otherwise), truncated toward zero, with no
  wrap-around. The data section of a mono buffer's file holds exactly these values, one
  for each position below \<open>len\<close>; a position past the end of the channel reads as NaN.
\<close>

theorem bufferToWave_stores_int16:
  "(- 32768 \<le> sint (ToInt16 (scaleSample x)) \<and> sint (ToInt16 (scaleSample x)) \<le> 32767)
   \<and> ToInt16 (scaleSample NaN) = 0
   \<and> sint (ToInt16 (scaleSample PosInf)) = 32767
   \<and> sint (ToInt16 (scaleSample NegInf)) = - 32768
   \<and> (1 \<le> r \<longrightarrow> sint (ToInt16 (scaleSample (Num r))) = 32767)
   \<and> (r \<le> - 1 \<longrightarrow> sint (ToInt16 (scaleSample (Num r))) = - 32768)
   \<and> (- 1 < r \<and> r < 0 \<longrightarrow> sint (ToInt16 (scaleSample (Num r))) = \<lceil>r * 32768\<rceil>)
   \<and> (0 \<le> r \<and> r < 1 \<longrightarrow> sint (ToInt16 (scaleSample (Num r))) = \<lfloor>r * 32767\<rfloor>)
   \<and> (channels b = [c] \<longrightarrow>
        length (bufferToWave b len) = 44 + len * 2
        \<and> int16_elements (drop 44 (bufferToWave b len))
            = map (\<lambda>pos. ToInt16 (scaleSample (getSample c pos))) [0..<len])"
proof -
  have range: "- 32768 \<le> sint (ToInt16 (scaleSample x)) \<and> sint (ToInt16 (scaleSample x)) \<le> 32767"
    using sint_ge [of "ToInt16 (scaleSample x)"] sint_lt [of "ToInt16 (scaleSample x)"]
    by simp
  have fin: "sint (ToInt16 (scaleSample (Num r))) = scaled r"
    by (rule stored_Num)
  have len: "length (bufferToWave b len) = 44 + len * 2" if "channels b = [c]"
    using that by (simp add: length_bufferToWave numberOfChannels_def)
  show ?thesis
    using range len stored_samples [of b c len]
    by (simp add: fin stored_not_finite scaled_def)
qed

theorem bufferToWave_stores_int16_witness:
  "sint (ToInt16 (scaleSample (Num 5))) = 32767
   \<and> sint (ToInt16 (scaleSample (Num (- 5)))) = - 32768
   \<and> sint (ToInt16 (scaleSample (Num (- 0.5)))) = - 16384
   \<and> sint (ToInt16 (scaleSample (Num 0.5))) = 16383
   \<and> map sint (int16_elements (drop 44
        (bufferToWave \<lparr>sampleRate = 24000, channels = [[Num 5, NaN, NegInf]]\<rparr> 4)))
      = [32767, 0, - 32768, 0]"
proof -
  have "\<lceil>- 0.5 * 32768 :: real\<rceil> = - 16384" "\<lfloor>0.5 * 32767 :: real\<rfloor> = 16383"
    by simp_all
  then show ?thesis
    using bufferToWave_stores_int16 [of "Num 0" 5 "\<lparr>sampleRate = 24000, channels = [[Num 5, NaN, NegInf]]\<rparr>"
        "[Num 5, NaN, NegInf]" 4]
      bufferToWave_stores_int16 [of "Num 0" "- 5" "\<lparr>sampleRate = 24000, channels = []\<rparr>" "[]" 0]
      bufferToWave_stores_int16 [of "Num 0" "- 0.5" "\<lparr>sampleRate = 24000, channels = []\<rparr>" "[]" 0]
      bufferToWave_stores_int16 [of "Num 0" "0.5" "\<lparr>sampleRate = 24000, channels = []\<rparr>" "[]" 0]
    by (simp add: getSample_def upt_conv_Cons)
qed

lemma requantised:
  fixes v :: "16 word"
  defines "x \<equiv> real_of_int (sint v) / 32768"
  defines "y \<equiv> real_of_int (sint (ToInt16 (scaleSample (Num x)))) / 32768"
  shows "0 \<le> x - y \<and> x - y \<le> 1 / 32768"
proof -
  have r: "- 32768 \<le> sint v" "sint v < 32768"
    using sint_ge [of v] sint_lt [of v] by simp_all
  have "sint (ToInt16 (scaleSample (Num x))) = (if 0 < sint v then sint v - 1 else sint v)"
    unfolding x_def stored_Num by (rule scaled_quantum [OF r])
  then show ?thesis
    unfolding y_def x_def by (simp add: field_simps)
qed

text \<open>
  C1. Decode, encode, decode again. Whenever \<open>decodeRawPCM\<close> accepts a payload at a
  rate, giving the buffer \<open>b1\<close>, and the data section of \<open>bufferToWave b1\<close> (the bytes
  after the 44-byte header) is handed to \<open>decodeRawPCM\<close> again as base64, the second
  decode succeeds with a mono buffer of the same rate and the same number of samples,
  and each of its samples is the first buffer's sample at the same index less at most
  \<open>1 / 32768\<close>. The bound holds sample by sample, whatever the index.
\<close>

theorem decode_encode_decode:
  assumes "decodeRawPCM base64Data ctx rate = Inr b1"
    and "decodeBase64 base64Data2 = Inr (drop 44 (bufferToWave b1 (buffer_length b1)))"
  shows "\<exists>b2 c1 c2. decodeRawPCM base64Data2 ctx rate = Inr b2
           \<and> channels b1 = [c1] \<and> channels b2 = [c2]
           \<and> sampleRate b2 = sampleRate b1
           \<and> buffer_length b2 = buffer_length b1
           \<and> list_all2 (\<lambda>s1 s2. \<exists>x y. s1 = Num x \<and> s2 = Num y
                                     \<and> 0 \<le> x - y \<and> \<bar>x - y\<bar> \<le> 1 / 32768) c1 c2"
proof -
  let ?dec = "\<lambda>v :: 16 word. Num (real_of_int (sint v) / 32768)"
  let ?enc = "\<lambda>x. ToInt16 (scaleSample x)"
  from decodeRawPCM_InrD [OF assms(1)] obtain bytes where
    bytes: "decodeBase64 base64Data = Inr bytes" "even (length bytes)" "bytes \<noteq> []"
    and rate: "0 < rate" "minSampleRate ctx \<le> rate" "rate \<le> maxSampleRate ctx"
    by blast
  define vs where "vs = int16_elements bytes"
  define c1 where "c1 = map ?dec vs"
  define ws where "ws = map ?enc c1"
  define c2 where "c2 = map ?dec ws"
  have b1: "b1 = \<lparr>sampleRate = rate, channels = [c1]\<rparr>"
    using decodeRawPCM_ok [OF bytes rate] assms(1) by (simp add: c1_def vs_def)
  have vs: "vs \<noteq> []"
    unfolding vs_def using bytes by (intro int16_elements_nonempty)
  have len1: "buffer_length b1 = length c1"
    by (simp add: b1 buffer_length_def)
  have data: "drop 44 (bufferToWave b1 (buffer_length b1)) = concat (map setUint16 ws)"
    unfolding len1 ws_def by (rule data_section_full) (simp add: b1)
  have bytes2: "decodeBase64 base64Data2 = Inr (concat (map setUint16 ws))"
    using assms(2) data by simp
  have "ws \<noteq> []"
    using vs by (simp add: ws_def c1_def)
  then have "length (concat (map setUint16 ws)) \<noteq> 0"
    by (simp only: length_concat_setUint16) simp
  then have ne: "concat (map setUint16 ws) \<noteq> []"
    by (simp only: length_0_conv) simp
  have ev: "even (length (concat (map setUint16 ws)))"
    by (simp add: length_concat_setUint16)
  have b2: "decodeRawPCM base64Data2 ctx rate = Inr \<lparr>sampleRate = rate, channels = [c2]\<rparr>"
    using decodeRawPCM_ok [OF bytes2 ev ne rate]
    by (simp only: int16_elements_setUint16 c2_def)
  have rel: "list_all2 (\<lambda>s1 s2. \<exists>x y. s1 = Num x \<and> s2 = Num y
                                   \<and> 0 \<le> x - y \<and> \<bar>x - y\<bar> \<le> 1 / 32768) c1 c2"
    unfolding c2_def ws_def c1_def list_all2_map1 list_all2_map2
  proof (rule list.rel_refl)
    fix v :: "16 word"
    from requantised [of v]
    show "\<exists>x y. ?dec v = Num x \<and> ?dec (?enc (?dec v)) = Num y \<and> 0 \<le> x - y \<and> \<bar>x - y\<bar> \<le> 1 / 32768"
      by (intro exI conjI) (rule refl, rule refl, auto)
  qed
  have "buffer_length \<lparr>sampleRate = rate, channels = [c2]\<rparr> = buffer_length b1"
    unfolding len1 by (simp add: buffer_length_def c2_def ws_def)
  with b2 rel show ?thesis
    by (intro exI [of _ "\<lparr>sampleRate = rate, channels = [c2]\<rparr>"] exI [of _ c1] exI [of _ c2])
      (simp add: b1)
qed

theorem decode_encode_decode_witness:
  "\<exists>b2 c2. decodeRawPCM ''AID+fw=='' \<lparr>minSampleRate = 8000, maxSampleRate = 96000\<rparr> 24000 = Inr b2
     \<and> channels b2 = [c2] \<and> sampleRate b2 = 24000 \<and> buffer_length b2 = 2
     \<and> list_all2 (\<lambda>s1 s2. \<exists>x y. s1 = Num x \<and> s2 = Num y \<and> 0 \<le> x - y \<and> \<bar>x - y\<bar> \<le> 1 / 32768)
          [Num (- 1), Num 0.999969482421875] c2"
proof -
  let ?ctx = "\<lparr>minSampleRate = 8000, maxSampleRate = 96000\<rparr>"
  let ?b1 = "\<lparr>sampleRate = 24000, channels = [[Num (- 1), Num 0.999969482421875]]\<rparr>"
  have d1: "decodeRawPCM ''AID/fw=='' ?ctx 24000 = Inr ?b1"
    by (simp add: atob_unfold decodeRawPCM_def new_Int16Array_def createBuffer_def)
  have len: "buffer_length ?b1 = 2"
    by (simp add: buffer_length_def)
  have "drop 44 (bufferToWave ?b1 2) = [0x00, 0x80, 0xFE, 0x7F]"
    by (simp add: data_section [of _ "[Num (- 1), Num 0.999969482421875]"]
        upt_conv_Cons getSample_def scaleSample_Num scaled_def ToInt16_def setUint16_def)
  moreover have "decodeBase64 ''AID+fw=='' = Inr [0x00, 0x80, 0xFE, 0x7F]"
    by (simp add: atob_unfold)
  ultimately have d2:
    "decodeBase64 ''AID+fw=='' = Inr (drop 44 (bufferToWave ?b1 (buffer_length ?b1)))"
    by (simp only: len)
  from decode_encode_decode [OF d1 d2] obtain b2 c1 c2 where
    r: "decodeRawPCM ''AID+fw=='' ?ctx 24000 = Inr b2" "channels ?b1 = [c1]" "channels b2 = [c2]"
      "sampleRate b2 = sampleRate ?b1" "buffer_length b2 = buffer_length ?b1"
      "list_all2 (\<lambda>s1 s2. \<exists>x y. s1 = Num x \<and> s2 = Num y \<and> 0 \<le> x - y \<and> \<bar>x - y\<bar> \<le> 1 / 32768) c1 c2"
    by blast
  from r(2) have c1: "c1 = [Num (- 1), Num 0.999969482421875]"
    by simp
  from r(5) have "buffer_length b2 = 2"
    by (simp only: len)
  with r(1,3,4,6) show ?thesis
    unfolding c1 by (intro exI [of _ b2] exI [of _ c2]) simp
qed

text \<open>
  C5, as the code has it. For every mono buffer, \<open>bufferToWave\<close> called with the buffer's
  length produces exactly \<open>44 + sampleCount * 2\<close> bytes, and the block-align field is 2.
  The byte-rate and the two size fields are unsigned 32-bit stores: they hold
  \<open>sampleRate * 2\<close> converted by ToUint32, \<open>sampleCount * 2\<close> and \<open>sampleCount * 2 + 36\<close>
  modulo \<open>2 ^ 32\<close>. They are the plain values, with the total size equal to the
  data-chunk size plus 36, whenever \<open>sampleCount * 2 + 36 < 2 ^ 32\<close>, and the byte rate
  is \<open>sampleRate * 2\<close> whenever the rate is a whole number with
  \<open>sampleRate * 2 < 2 ^ 32\<close>.
\<close>

theorem bufferToWave_header:
  assumes "numberOfChannels b = 1"
  defines "n \<equiv> buffer_length b"
  defines "wav \<equiv> bufferToWave b (buffer_length b)"
  shows "length wav = 44 + n * 2
         \<and> getUint16 wav 32 = 2
         \<and> getUint32 wav 28 = ToUint32 (sampleRate b * 2)
         \<and> unat (getUint32 wav 40) = (n * 2) mod 2 ^ 32
         \<and> unat (getUint32 wav 4) = (n * 2 + 36) mod 2 ^ 32
         \<and> (n * 2 + 36 < 2 ^ 32 \<longrightarrow>
               unat (getUint32 wav 40) = n * 2
               \<and> unat (getUint32 wav 4) = unat (getUint32 wav 40) + 36)
         \<and> (\<forall>hz :: nat. sampleRate b = real hz \<and> hz * 2 < 2 ^ 32 \<longrightarrow>
               unat (getUint32 wav 28) = hz * 2)"
proof -
  have len: "length wav = 44 + n * 2"
    by (simp add: wav_def n_def length_bufferToWave assms(1))
  have align: "getUint16 wav 32 = 2"
    by (simp add: wav_def block_align_field assms(1))
  have rate: "getUint32 wav 28 = ToUint32 (sampleRate b * 2)"
    by (simp add: wav_def byte_rate_field assms(1))
  have e: "len * 1 * 2 + 44 - 0 - 44 = len * 2" "len * 1 * 2 + 44 - 8 = len * 2 + 36" for len :: nat
    by simp_all
  have "getUint32 wav 40 = of_nat (n * 2)"
    unfolding wav_def n_def data_size_field assms(1) e ..
  then have data: "unat (getUint32 wav 40) = (n * 2) mod 2 ^ 32"
    by (simp only: unat_of_nat) simp
  have "getUint32 wav 4 = of_nat (n * 2 + 36)"
    unfolding wav_def n_def riff_size_field assms(1) e ..
  then have riff: "unat (getUint32 wav 4) = (n * 2 + 36) mod 2 ^ 32"
    by (simp only: unat_of_nat) simp
  have fits: "unat (getUint32 wav 40) = n * 2 \<and> unat (getUint32 wav 4) = unat (getUint32 wav 40) + 36"
    if "n * 2 + 36 < 2 ^ 32"
    using that by (simp add: data riff)
  have hz: "unat (getUint32 wav 28) = hz * 2" if "sampleRate b = real hz" "hz * 2 < 2 ^ 32" for hz
  proof -
    have "sampleRate b * 2 = real (hz * 2)"
      using that(1) by simp
    then have "getUint32 wav 28 = of_nat (hz * 2)"
      by (simp only: rate ToUint32_nat)
    then have "unat (getUint32 wav 28) = (hz * 2) mod 2 ^ 32"
      by (simp only: unat_of_nat) simp
    then show ?thesis
      using that(2) by simp
  qed
  from len align rate data riff fits hz show ?thesis
    by blast
qed

theorem bufferToWave_header_witness:
  "length (bufferToWave \<lparr>sampleRate = 24000, channels = [[Num 0, Num 0.5, Num (- 1)]]\<rparr> 3) = 50
   \<and> getUint16 (bufferToWave \<lparr>sampleRate = 24000, channels = [[Num 0, Num 0.5, Num (- 1)]]\<rparr> 3) 32 = 2
   \<and> unat (getUint32 (bufferToWave \<lparr>sampleRate = 24000, channels = [[Num 0, Num 0.5, Num (- 1)]]\<rparr> 3) 28) = 48000
   \<and> unat (getUint32 (bufferToWave \<lparr>sampleRate = 24000, channels = [[Num 0, Num 0.5, Num (- 1)]]\<rparr> 3) 40) = 6
   \<and> unat (getUint32 (bufferToWave \<lparr>sampleRate = 24000, channels = [[Num 0, Num 0.5, Num (- 1)]]\<rparr> 3) 4) = 42"
proof -
  let ?b = "\<lparr>sampleRate = 24000, channels = [[Num 0, Num 0.5, Num (- 1)]]\<rparr>"
  have c: "numberOfChannels ?b = 1"
    by (simp add: numberOfChannels_def)
  have n: "buffer_length ?b = 3"
    by (simp add: buffer_length_def)
  have hz: "sampleRate ?b = real 24000 \<and> (24000::nat) * 2 < 2 ^ 32"
    by simp
  from bufferToWave_header [OF c] hz show ?thesis
    unfolding n by (simp add: ToUint32_def trunc_toward_zero_def)
qed

text \<open>
  C5 as stated fails for a buffer of \<open>2 ^ 31\<close> samples: the file has
  \<open>44 + 2 ^ 32\<close> bytes, and its data-chunk size field holds 0.
\<close>

theorem bufferToWave_header_counterexample:
  "unat (getUint32
     (bufferToWave \<lparr>sampleRate = 24000, channels = [replicate 2147483648 (Num 0)]\<rparr>
        (buffer_length \<lparr>sampleRate = 24000, channels = [replicate 2147483648 (Num 0)]\<rparr>)) 40)
   \<noteq> buffer_length \<lparr>sampleRate = 24000, channels = [replicate 2147483648 (Num 0)]\<rparr> * 2"
proof -
  let ?b = "\<lparr>sampleRate = 24000, channels = [replicate 2147483648 (Num 0)]\<rparr>"
  have n: "buffer_length ?b = 2147483648"
    unfolding buffer_length_def by (simp only: AudioBuffer.simps list.case length_replicate)
  have c: "numberOfChannels ?b = 1"
    unfolding numberOfChannels_def by (simp only: AudioBuffer.simps list.size)
  have "unat (getUint32 (bufferToWave ?b (buffer_length ?b)) 40) = (2147483648 * 2) mod 2 ^ 32"
    unfolding n by (simp only: data_size_field c unat_of_nat) simp
  then show ?thesis
    unfolding n by simp
qed

section \<open>The player: at most one source\<close>

lemma filter_started_le1:
  assumes "\<forall>j < length xs. j \<noteq> i \<longrightarrow> \<not> is_started (xs ! j)"
  shows "length (filter is_started xs) \<le> 1"
  using assms
proof (induction xs arbitrary: i)
  case Nil
  then show ?case by simp
next
  case (Cons x xs)
  show ?case
  proof (cases i)
    case 0
    have "\<not> is_started (xs ! j)" if "j < length xs" for j
      using Cons.prems [rule_format, of "Suc j"] that 0 by simp
    then have "filter is_started xs = []"
      by (auto simp: filter_empty_conv in_set_conv_nth)
    then show ?thesis by simp
  next
    case (Suc k)
    have x: "\<not> is_started x"
      using Cons.prems [rule_format, of 0] Suc by simp
    have "\<forall>j < length xs. j \<noteq> k \<longrightarrow> \<not> is_started (xs ! j)"
      using Cons.prems [rule_format, of "Suc j" for j] Suc by auto
    from Cons.IH [OF this] x show ?thesis by simp
  qed
qed

lemma inv_live: "player_inv s \<Longrightarrow> live_sources s \<le> 1"
  unfolding live_sources_def
proof (rule filter_started_le1 [where i = "case sourceRef s of None \<Rightarrow> length (sources s) | Some i \<Rightarrow> i"])
  assume "player_inv s"
  then show "\<forall>j<length (sources s). j \<noteq> (case sourceRef s of None \<Rightarrow> length (sources s) | Some i \<Rightarrow> i)
      \<longrightarrow> \<not> is_started (sources s ! j)"
    by (auto simp: player_inv_def split: option.splits)
qed

lemma inv_init: "player_inv (init_player b)"
  by (simp add: player_inv_def init_player_def)

lemma draw_frame [simp]:
  "sources (draw ip now s) = sources s" "sourceRef (draw ip now s) = sourceRef s"
  "isPlaying (draw ip now s) = isPlaying s"
  by (simp_all add: draw_def Let_def)

lemma drawVisualizer_frame [simp]:
  "sources (drawVisualizer ip now s) = sources s" "sourceRef (drawVisualizer ip now s) = sourceRef s"
  "isPlaying (drawVisualizer ip now s) = isPlaying s"
  by (simp_all add: drawVisualizer_def)

lemma cancelAnimation_frame [simp]:
  "sources (cancelAnimation s) = sources s" "sourceRef (cancelAnimation s) = sourceRef s"
  "isPlaying (cancelAnimation s) = isPlaying s"
  by (simp_all add: cancelAnimation_def split: option.splits)

lemma draw_other [simp]:
  "audioBuffer (draw ip now s) = audioBuffer s" "pauseTimeRef (draw ip now s) = pauseTimeRef s"
  "startTimeRef (draw ip now s) = startTimeRef s"
  by (simp_all add: draw_def Let_def)

lemma drawVisualizer_other [simp]:
  "audioBuffer (drawVisualizer ip now s) = audioBuffer s"
  "pauseTimeRef (drawVisualizer ip now s) = pauseTimeRef s"
  "startTimeRef (drawVisualizer ip now s) = startTimeRef s"
  by (simp_all add: drawVisualizer_def)

lemma cancelAnimation_other [simp]:
  "audioBuffer (cancelAnimation s) = audioBuffer s"
  "pauseTimeRef (cancelAnimation s) = pauseTimeRef s"
  "startTimeRef (cancelAnimation s) = startTimeRef s"
  by (simp_all add: cancelAnimation_def split: option.splits)

lemma inv_draw [simp]: "player_inv (draw ip now s) = player_inv s"
  by (simp add: player_inv_def)

lemma inv_drawVisualizer [simp]: "player_inv (drawVisualizer ip now s) = player_inv s"
  by (simp add: player_inv_def)

lemma inv_cancelAnimation [simp]: "player_inv (cancelAnimation s) = player_inv s"
  by (simp add: player_inv_def)

lemma silent_inv: "silent s \<Longrightarrow> player_inv s"
  by (simp add: silent_def player_inv_def)

lemma playAudio_silent:
  assumes "silent s"
  shows "player_inv (state_of (playAudio ip now s))"
  using assms
  by (auto simp: playAudio_def initAudio_def Let_def silent_def player_inv_def nth_append
      split: option.splits)

lemma source_stop_cases:
  "source_stop i s = Done s \<and> (i < length (sources s) \<longrightarrow> sources s ! i = Stopped)
   \<or> source_stop i s = Threw InvalidStateError s \<and> i < length (sources s) \<and> sources s ! i = Created
   \<or> source_stop i s = Done (s\<lparr>sources := (sources s)[i := Stopped]\<rparr>) \<and> i < length (sources s)"
  by (auto simp: source_stop_def split: phase.splits)

lemma stop_current_silent:
  assumes "player_inv s" "sourceRef s = Some i" "source_stop i s = Done s1"
  shows "silent s1"
  using assms source_stop_cases [of i s]
  by (auto simp: silent_def player_inv_def nth_list_update split: if_splits)

lemma stop_current_threw:
  assumes "source_stop i s = Threw e s1"
  shows "s1 = s"
  using assms source_stop_cases [of i s] by auto

lemma no_source_silent:
  assumes "player_inv s" "sourceRef s = None"
  shows "silent s"
  using assms by (auto simp: silent_def player_inv_def)

lemma not_playing_silent:
  assumes "player_inv s" "\<not> isPlaying s"
  shows "silent s"
  using assms by (auto simp: silent_def player_inv_def)

lemma silent_fields:
  assumes "sources s1 = sources s"
  shows "silent s1 = silent s"
  using assms by (simp add: silent_def)

lemma inv_togglePlay: "player_inv s \<Longrightarrow> player_inv (state_of (togglePlay now s))"
proof -
  assume inv: "player_inv s"
  show ?thesis
  proof (cases "isPlaying s")
    case False
    with inv show ?thesis
      by (simp add: togglePlay_def playAudio_silent not_playing_silent)
  next
    case True
    show ?thesis
    proof (cases "sourceRef s")
      case None
      with True inv show ?thesis by (simp add: togglePlay_def pauseAudio_def)
    next
      case (Some i)
      show ?thesis
      proof (cases "source_stop i s")
        case (Done s1)
        from stop_current_silent [OF inv Some Done] have "silent s1" .
        then have "player_inv (s1\<lparr>pauseTimeRef := now - startTimeRef s1, isPlaying := False\<rparr>)"
          by (simp add: silent_def player_inv_def)
        with True Some Done show ?thesis
          by (simp add: togglePlay_def pauseAudio_def)
      next
        case (Threw e s1)
        with stop_current_threw [OF Threw] True Some inv show ?thesis
          by (simp add: togglePlay_def pauseAudio_def)
      qed
    qed
  qed
qed

lemma stopAudio_cases:
  assumes "player_inv s"
  shows "(\<exists>e. stopAudio s = Threw e s) \<or> (\<exists>s1. stopAudio s = Done s1 \<and> silent s1)"
proof (cases "sourceRef s")
  case None
  from no_source_silent [OF assms None] have "silent (s\<lparr>isPlaying := False, pauseTimeRef := 0, currentTime := 0\<rparr>)"
    by (simp add: silent_def)
  then have "silent (cancelAnimation (s\<lparr>isPlaying := False, pauseTimeRef := 0, currentTime := 0\<rparr>))"
    by (simp add: silent_def)
  with None show ?thesis by (simp add: stopAudio_def)
next
  case (Some i)
  show ?thesis
  proof (cases "source_stop i s")
    case (Done s1)
    from stop_current_silent [OF assms Some Done]
    have "silent (cancelAnimation (s1\<lparr>isPlaying := False, pauseTimeRef := 0, currentTime := 0\<rparr>))"
      by (simp add: silent_def)
    with Some Done show ?thesis by (simp add: stopAudio_def)
  next
    case (Threw e s1)
    with stop_current_threw [OF Threw] Some show ?thesis by (simp add: stopAudio_def)
  qed
qed

lemma inv_restart: "player_inv s \<Longrightarrow> player_inv (state_of (restart now s))"
  using stopAudio_cases [of s] by (auto simp: restart_def playAudio_silent)

lemma inv_handleSeek: "player_inv s \<Longrightarrow> player_inv (state_of (handleSeek time now s))"
proof -
  assume inv: "player_inv s"
  let ?s1 = "s\<lparr>currentTime := time, pauseTimeRef := time\<rparr>"
  have inv1: "player_inv ?s1"
    using inv by (simp add: player_inv_def)
  show ?thesis
  proof (cases "isPlaying s")
    case False
    with inv1 show ?thesis by (simp add: handleSeek_def)
  next
    case True
    show ?thesis
    proof (cases "sourceRef s")
      case None
      then have "silent ?s1"
        using no_source_silent [OF inv1] by simp
      with True None show ?thesis
        by (simp add: handleSeek_def playAudio_silent)
    next
      case (Some i)
      then have ref: "sourceRef ?s1 = Some i" by simp
      show ?thesis
      proof (cases "source_stop i ?s1")
        case (Done s2)
        from stop_current_silent [OF inv1 ref Done] True Some Done show ?thesis
          by (simp add: handleSeek_def playAudio_silent)
      next
        case (Threw e s2)
        with stop_current_threw [OF Threw] True Some inv1 show ?thesis
          by (simp add: handleSeek_def)
      qed
    qed
  qed
qed

lemma inv_toggleMute: "player_inv s \<Longrightarrow> player_inv (toggleMute s)"
  by (simp add: toggleMute_def player_inv_def split: option.splits)

lemma fold_draw_frame:
  "sources (fold (\<lambda>cb s1. draw (snd cb) now s1) cbs s) = sources s
   \<and> sourceRef (fold (\<lambda>cb s1. draw (snd cb) now s1) cbs s) = sourceRef s
   \<and> isPlaying (fold (\<lambda>cb s1. draw (snd cb) now s1) cbs s) = isPlaying s"
  by (induction cbs arbitrary: s) simp_all

lemma inv_animationFrame: "player_inv s \<Longrightarrow> player_inv (animationFrame now s)"
  by (simp add: animationFrame_def player_inv_def fold_draw_frame)

lemma started_update_Stopped:
  assumes "is_started (xs[i := Stopped] ! j)" "j < length xs"
  shows "is_started (xs ! j) \<and> i \<noteq> j"
  using assms by (cases "i = j") simp_all

lemma inv_onended: "silent s \<Longrightarrow> player_inv (onended now s)"
  by (simp add: onended_def silent_def player_inv_def split: option.splits)

lemma inv_sourceFinished: "player_inv s \<Longrightarrow> player_inv (sourceFinished now s)"
proof -
  assume inv: "player_inv s"
  show ?thesis
  proof (cases "sourceRef s")
    case None
    with inv show ?thesis by (simp add: sourceFinished_def)
  next
    case (Some i)
    show ?thesis
    proof (cases "i < length (sources s) \<and> is_started (sources s ! i)")
      case False
      with inv Some show ?thesis by (auto simp: sourceFinished_def)
    next
      case True
      have "silent (s\<lparr>sources := (sources s)[i := Stopped]\<rparr>)"
        unfolding silent_def
      proof (intro allI impI)
        fix j
        assume "j < length (sources (s\<lparr>sources := (sources s)[i := Stopped]\<rparr>))"
        then have j: "j < length (sources s)" by simp
        show "\<not> is_started (sources (s\<lparr>sources := (sources s)[i := Stopped]\<rparr>) ! j)"
        proof
          assume "is_started (sources (s\<lparr>sources := (sources s)[i := Stopped]\<rparr>) ! j)"
          then have "is_started ((sources s)[i := Stopped] ! j)" by simp
          from started_update_Stopped [OF this j] have "is_started (sources s ! j)" "i \<noteq> j"
            by simp_all
          with inv j Some show False
            by (auto simp: player_inv_def)
        qed
      qed
      from inv_onended [OF this] True Some show ?thesis
        by (simp add: sourceFinished_def)
    qed
  qed
qed

lemma inv_step: "player_inv s \<Longrightarrow> \<not> ended_of_stopped e \<Longrightarrow> player_inv (step s e)"
  by (cases e) (simp_all add: inv_togglePlay inv_restart inv_handleSeek inv_toggleMute
      inv_animationFrame inv_sourceFinished)

lemma inv_run:
  "player_inv s \<Longrightarrow> list_all (\<lambda>e. \<not> ended_of_stopped e) es \<Longrightarrow> player_inv (run es s)"
  unfolding run_def by (induction es arbitrary: s) (simp_all add: inv_step)

lemma playAudio_keeps_sources:
  "take (length (sources s)) (sources (state_of (playAudio closure_isPlaying now s))) = sources s"
  by (simp add: playAudio_def initAudio_def Let_def split: option.splits)

text \<open>
  \<open>playAudio\<close> itself stops nothing; its callers do (\<open>togglePlay\<close> calls it only when the
  component is not playing, \<open>handleSeek\<close> and the restart button stop the current source
  first). As long as no \<open>ended\<close> event of a stopped source arrives, that keeps at most
  one source started.
\<close>

lemma one_live_source_without_ended_of_stopped:
  assumes "list_all (\<lambda>e. \<not> ended_of_stopped e) es"
  shows "live_sources (run es (init_player b)) \<le> 1"
  using assms by (intro inv_live inv_run inv_init)

text \<open>
  C8 fails on the code. The \<open>onended\<close> handler means to reset the component only at the
  natural end of the buffer (its comment: only reset if we naturally reached the end),
  but it tells the natural end by comparing the context time with \<open>startTimeRef\<close>, and
  when the event is that of a source ended by \<open>stop\<close>, \<open>startTimeRef\<close> belongs to the next
  source by then. On a buffer of 10 seconds: press play at time 0; move the slider to
  9.9 s at time 1 (the first source is stopped, a second one starts at offset 9.9 and
  sounds until time 1.1); the first source's \<open>ended\<close> event arrives at time 1.01, finds
  \<open>1.01 - startTimeRef = 9.91 \<ge> duration - 0.1\<close> and resets \<open>isPlaying\<close> and the position
  while the second source is still started; the button now says play, and pressing
  it at time 1.05 starts a third source without stopping the second: two sources are
  started at once.
\<close>

theorem two_sources_after_ended_of_stopped_source:
  "duration \<lparr>sampleRate = 8000, channels = [replicate 80000 (Num 0)]\<rparr> = 10
   \<and> sources (run [TogglePlay 0, Seek 9.9 1]
        (init_player (Some \<lparr>sampleRate = 8000, channels = [replicate 80000 (Num 0)]\<rparr>)))
      = [Stopped, Started 9.9]
   \<and> \<not> isPlaying (run [TogglePlay 0, Seek 9.9 1, StoppedSourceEnded 1.01]
        (init_player (Some \<lparr>sampleRate = 8000, channels = [replicate 80000 (Num 0)]\<rparr>)))
   \<and> live_sources (run [TogglePlay 0, Seek 9.9 1, StoppedSourceEnded 1.01]
        (init_player (Some \<lparr>sampleRate = 8000, channels = [replicate 80000 (Num 0)]\<rparr>))) = 1
   \<and> sources (run [TogglePlay 0, Seek 9.9 1, StoppedSourceEnded 1.01, TogglePlay 1.05]
        (init_player (Some \<lparr>sampleRate = 8000, channels = [replicate 80000 (Num 0)]\<rparr>)))
      = [Stopped, Started 9.9, Started 0]
   \<and> live_sources (run [TogglePlay 0, Seek 9.9 1, StoppedSourceEnded 1.01, TogglePlay 1.05]
        (init_player (Some \<lparr>sampleRate = 8000, channels = [replicate 80000 (Num 0)]\<rparr>))) = 2"
proof -
  have d: "duration \<lparr>sampleRate = 8000, channels = [replicate 80000 (Num 0)]\<rparr> = 10"
    unfolding duration_def buffer_length_def
    by (simp only: AudioBuffer.simps list.case length_replicate)
  show ?thesis
    by (simp add: run_def init_player_def togglePlay_def handleSeek_def playAudio_def
        source_stop_def initAudio_def drawVisualizer_def draw_def onended_def Let_def d
        live_sources_def)
qed

section \<open>The player: seeking and position\<close>

lemmas handler_unfold = togglePlay_def playAudio_def pauseAudio_def handleSeek_def stopAudio_def
  restart_def source_stop_def initAudio_def drawVisualizer_def draw_def cancelAnimation_def
  animationFrame_def Let_def

lemma playAudio_pauseTimeRef [simp]: "pauseTimeRef (state_of (playAudio ip now s)) = pauseTimeRef s"
  by (simp add: playAudio_def initAudio_def drawVisualizer_def draw_def Let_def split: option.splits)

lemma source_stop_pauseTimeRef:
  "pauseTimeRef (state_of (source_stop i s)) = pauseTimeRef s"
  using source_stop_cases [of i s] by auto

lemma handleSeek_not_playing:
  "pauseTimeRef (state_of (handleSeek time now s)) = time
   \<and> (\<not> isPlaying s \<longrightarrow>
        handleSeek time now s = Done (s\<lparr>currentTime := time, pauseTimeRef := time\<rparr>))"
proof -
  let ?s1 = "s\<lparr>currentTime := time, pauseTimeRef := time\<rparr>"
  have "pauseTimeRef (state_of (handleSeek time now s)) = time"
  proof (cases "isPlaying s")
    case False
    then show ?thesis by (simp add: handleSeek_def)
  next
    case True
    show ?thesis
    proof (cases "sourceRef s")
      case None
      with True show ?thesis by (simp add: handleSeek_def)
    next
      case (Some i)
      from source_stop_pauseTimeRef [of i ?s1] True Some show ?thesis
        by (cases "source_stop i ?s1") (simp_all add: handleSeek_def)
    qed
  qed
  then show ?thesis
    by (simp add: handleSeek_def)
qed

lemma handleSeek_playing:
  assumes "isPlaying s" "audioBuffer s = Some b" "sourceRef s = Some i"
    "sources s = xs @ [Started p]" "i = length xs"
  shows "0 \<le> time \<longrightarrow>
           (\<exists>s1. handleSeek time now s = Done s1 \<and> isPlaying s1 \<and> startTimeRef s1 = now - time
                 \<and> sources s1 = xs @ [Stopped, Started time])"
    and "time < 0 \<longrightarrow>
           (\<exists>s1. handleSeek time now s = Threw RangeError s1 \<and> isPlaying s1
                 \<and> sources s1 = xs @ [Stopped, Created])"
  using assms
  by (simp_all add: handleSeek_def source_stop_def playAudio_def initAudio_def Let_def
      list_update_append)

text \<open>
  C6, as the code has it. \<open>handleSeek\<close> does not clamp: whatever the value, it becomes
  \<open>pauseTimeRef\<close> unchanged. When the component is not playing the handler does nothing
  but store the value in \<open>currentTime\<close> and \<open>pauseTimeRef\<close>. When it is playing, with the
  current source started, the handler stops that source and calls \<open>playAudio\<close>: for a
  value of 0 or more a new source is started at that offset and \<open>startTimeRef\<close> becomes
  \<open>now - time\<close>; for a negative value \<open>start\<close> throws \<open>RangeError\<close> and no source is
  started. (The slider that calls the handler has \<open>min = 0\<close> and \<open>max = duration\<close>.)
\<close>

theorem handleSeek_stores_value:
  "pauseTimeRef (state_of (handleSeek time now s)) = time
   \<and> (\<not> isPlaying s \<longrightarrow>
        handleSeek time now s = Done (s\<lparr>currentTime := time, pauseTimeRef := time\<rparr>))
   \<and> (isPlaying s \<and> audioBuffer s = Some b \<and> sourceRef s = Some (length xs)
        \<and> sources s = xs @ [Started p] \<and> 0 \<le> time \<longrightarrow>
        (\<exists>s1. handleSeek time now s = Done s1 \<and> isPlaying s1 \<and> startTimeRef s1 = now - time
              \<and> sources s1 = xs @ [Stopped, Started time]))
   \<and> (isPlaying s \<and> audioBuffer s = Some b \<and> sourceRef s = Some (length xs)
        \<and> sources s = xs @ [Started p] \<and> time < 0 \<longrightarrow>
        (\<exists>s1. handleSeek time now s = Threw RangeError s1 \<and> isPlaying s1
              \<and> sources s1 = xs @ [Stopped, Created]))"
  using handleSeek_not_playing [of time now s] handleSeek_playing [of s b "length xs" xs p time now]
  by blast

theorem handleSeek_stores_value_witness:
  "handleSeek 3 0 (init_player (Some \<lparr>sampleRate = 8000, channels = [replicate 80000 (Num 0)]\<rparr>))
     = Done ((init_player (Some \<lparr>sampleRate = 8000, channels = [replicate 80000 (Num 0)]\<rparr>))
               \<lparr>currentTime := 3, pauseTimeRef := 3\<rparr>)
   \<and> (\<exists>s1. handleSeek 3 1 (state_of (togglePlay 0
          (init_player (Some \<lparr>sampleRate = 8000, channels = [replicate 80000 (Num 0)]\<rparr>)))) = Done s1
        \<and> isPlaying s1 \<and> startTimeRef s1 = 1 - 3 \<and> sources s1 = [Stopped, Started 3])
   \<and> (\<exists>s1. handleSeek (- 5) 1 (state_of (togglePlay 0
          (init_player (Some \<lparr>sampleRate = 8000, channels = [replicate 80000 (Num 0)]\<rparr>)))) = Threw RangeError s1
        \<and> isPlaying s1 \<and> sources s1 = [Stopped, Created])"
proof -
  let ?b = "\<lparr>sampleRate = 8000, channels = [replicate 80000 (Num 0)]\<rparr>"
  let ?s1 = "state_of (togglePlay 0 (init_player (Some ?b)))"
  have a: "\<not> isPlaying (init_player (Some ?b))"
    by (simp add: init_player_def)
  have b: "isPlaying ?s1 \<and> audioBuffer ?s1 = Some ?b \<and> sourceRef ?s1 = Some (length ([] :: phase list))
        \<and> sources ?s1 = [] @ [Started 0]"
    by (simp add: init_player_def togglePlay_def playAudio_def initAudio_def Let_def)
  from handleSeek_stores_value [of 3 0 "init_player (Some ?b)"] a
  have 1: "handleSeek 3 0 (init_player (Some ?b))
            = Done ((init_player (Some ?b))\<lparr>currentTime := 3, pauseTimeRef := 3\<rparr>)"
    by blast
  from handleSeek_stores_value [of 3 1 ?s1 ?b "[]" 0] b
  have 2: "\<exists>s1. handleSeek 3 1 ?s1 = Done s1 \<and> isPlaying s1 \<and> startTimeRef s1 = 1 - 3
            \<and> sources s1 = [Stopped, Started 3]"
    by simp
  from handleSeek_stores_value [of "- 5" 1 ?s1 ?b "[]" 0] b
  have 3: "\<exists>s1. handleSeek (- 5) 1 ?s1 = Threw RangeError s1 \<and> isPlaying s1
            \<and> sources s1 = [Stopped, Created]"
    by simp
  from 1 2 3 show ?thesis
    by blast
qed

text \<open>
  C6 as stated fails on a buffer of 10 seconds: seeking to \<open>-5\<close> stores \<open>-5\<close>, not the
  \<open>0\<close> that seeking to \<open>0\<close> stores, and seeking to \<open>duration + 100\<close> stores \<open>110\<close>, not
  the \<open>10\<close> that seeking to \<open>duration\<close> stores.
\<close>

theorem handleSeek_clamp_counterexample:
  "duration \<lparr>sampleRate = 8000, channels = [replicate 80000 (Num 0)]\<rparr> = 10
   \<and> pauseTimeRef (state_of (handleSeek (- 5) 0
        (init_player (Some \<lparr>sampleRate = 8000, channels = [replicate 80000 (Num 0)]\<rparr>)))) = - 5
   \<and> pauseTimeRef (state_of (handleSeek 0 0
        (init_player (Some \<lparr>sampleRate = 8000, channels = [replicate 80000 (Num 0)]\<rparr>)))) = 0
   \<and> pauseTimeRef (state_of (handleSeek (10 + 100) 0
        (init_player (Some \<lparr>sampleRate = 8000, channels = [replicate 80000 (Num 0)]\<rparr>)))) = 110
   \<and> pauseTimeRef (state_of (handleSeek 10 0
        (init_player (Some \<lparr>sampleRate = 8000, channels = [replicate 80000 (Num 0)]\<rparr>)))) = 10"
proof -
  have "duration \<lparr>sampleRate = 8000, channels = [replicate 80000 (Num 0)]\<rparr> = 10"
    unfolding duration_def buffer_length_def
    by (simp only: AudioBuffer.simps list.case length_replicate)
  then show ?thesis
    by (simp add: handleSeek_def init_player_def)
qed





section \<open>The player: the visualizer\<close>

lemma animationFrame_single:
  assumes "pending s = [(h, True)]"
  shows "framesDrawn (animationFrame now s) = framesDrawn s + 1
         \<and> pending (animationFrame now s) = [(nextHandle s, True)]"
  using assms by (simp add: animationFrame_def draw_def Let_def)

lemma frames_never_stop:
  assumes "pending s = [(h, True)]"
  shows "framesDrawn (run (map AnimationFrame ts) s) = framesDrawn s + length ts
         \<and> (\<exists>h1. pending (run (map AnimationFrame ts) s) = [(h1, True)])"
  using assms
proof (induction ts arbitrary: s h)
  case Nil
  then show ?case by (simp add: run_def)
next
  case (Cons now ts)
  from animationFrame_single [OF Cons.prems, of now]
  have f: "framesDrawn (animationFrame now s) = framesDrawn s + 1"
    and p: "pending (animationFrame now s) = [(nextHandle s, True)]"
    by simp_all
  have "run (map AnimationFrame (now # ts)) s = run (map AnimationFrame ts) (animationFrame now s)"
    by (simp add: run_def)
  with Cons.IH [OF p] f show ?case
    by simp
qed

lemma paused_with_two_chains:
  "run [TogglePlay 0, Seek 2 1, Seek 4 1.5, TogglePlay 3] (init_player (Some b))
     = (init_player (Some b))
         \<lparr>isPlaying := False, currentTime := 4, audioContextRef := True, sourceRef := Some 2,
          sources := [Stopped, Stopped, Stopped], gainNodeRef := Some 1, analyzerRef := True,
          animationRef := Some 2, startTimeRef := - 2.5, pauseTimeRef := 5.5,
          pending := [(1, True)], nextHandle := 3, framesDrawn := 2\<rparr>"
  by (simp add: run_def init_player_def handler_unfold)

text \<open>
  C9 fails on the code. Press play, move the slider twice while playing (to 2 s at time
  1, to 4 s at time 1.5), press pause at time 3. Each \<open>handleSeek\<close> started a chain of
  \<open>draw\<close> callbacks whose closure holds \<open>isPlaying = true\<close> for good; pause cancels only the
  request whose handle is in \<open>animationRef\<close>, the second chain's. After the pause the
  component is not playing and no source sounds, yet the first chain's request is
  still pending, and every animation frame from then on draws once more and requests
  the next frame: the count of frames drawn grows by one with each frame, without end.
\<close>

theorem visualizer_keeps_running_after_pause:
  "\<exists>s. s = run [TogglePlay 0, Seek 2 1, Seek 4 1.5, TogglePlay 3] (init_player (Some b))
       \<and> \<not> isPlaying s \<and> live_sources s = 0 \<and> pending s = [(1, True)]
       \<and> (\<forall>ts. framesDrawn (run (map AnimationFrame ts) s) = framesDrawn s + length ts
                 \<and> pending (run (map AnimationFrame ts) s) \<noteq> [])"
proof -
  define s where "s = run [TogglePlay 0, Seek 2 1, Seek 4 1.5, TogglePlay 3] (init_player (Some b))"
  have p: "pending s = [(1, True)]" and q: "\<not> isPlaying s" and l: "live_sources s = 0"
    unfolding s_def paused_with_two_chains by (simp_all add: live_sources_def)
  have "framesDrawn (run (map AnimationFrame ts) s) = framesDrawn s + length ts
        \<and> pending (run (map AnimationFrame ts) s) \<noteq> []" for ts
    using frames_never_stop [OF p, of ts] by auto
  with p q l show ?thesis
    unfolding s_def by blast
qed

end
